theory Spec2Isabelle
  imports Complex_Main
begin

section \<open>Python strings\<close>

text \<open>
  A Python \<open>str\<close> is modelled as a \<open>string\<close>, one \<open>char\<close> per code point, so the
  model covers the code points below 256. Times are Python numbers; they are modelled
  as exact rationals (seconds), and rounding of floats is left out.
\<close>

definition isspace :: "char \<Rightarrow> bool" where
  \<comment> \<open>\<open>str.isspace\<close>, also the regular expression class \<open>\s\<close> on a \<open>str\<close> pattern\<close>
  "isspace c = ((of_char c :: nat) \<in> {9, 10, 11, 12, 13, 28, 29, 30, 31, 32, 133, 160})"

definition isalnum :: "char \<Rightarrow> bool" where
  \<comment> \<open>\<open>str.isalnum\<close>: letters, decimal digits and the other numeric characters\<close>
  "isalnum c = (let n = (of_char c :: nat) in
     (48 \<le> n \<and> n \<le> 57) \<or> (65 \<le> n \<and> n \<le> 90) \<or> (97 \<le> n \<and> n \<le> 122) \<or>
     n \<in> {170, 178, 179, 181, 185, 186, 188, 189, 190} \<or>
     (192 \<le> n \<and> n \<le> 214) \<or> (216 \<le> n \<and> n \<le> 246) \<or> (248 \<le> n \<and> n \<le> 255))"

definition isword :: "char \<Rightarrow> bool" where
  \<comment> \<open>the regular expression class \<open>\w\<close>: alphanumeric or the underscore\<close>
  "isword c = (isalnum c \<or> c = CHR ''_'')"

definition strip :: "string \<Rightarrow> string" where
  \<comment> \<open>\<open>str.strip()\<close>\<close>
  "strip s = rev (dropWhile isspace (rev (dropWhile isspace s)))"

fun split_from :: "string \<Rightarrow> string \<Rightarrow> string list" where
  \<comment> \<open>\<open>str.split()\<close> with the word read so far as first argument\<close>
  "split_from cur [] = (if cur = [] then [] else [cur])"
| "split_from cur (c # cs) =
     (if isspace c then (if cur = [] then split_from [] cs else cur # split_from [] cs)
      else split_from (cur @ [c]) cs)"

definition split :: "string \<Rightarrow> string list" where
  \<comment> \<open>\<open>str.split()\<close>: the maximal runs of characters that are not whitespace\<close>
  "split s = split_from [] s"

definition replace_char :: "char \<Rightarrow> char \<Rightarrow> string \<Rightarrow> string" where
  \<comment> \<open>\<open>str.replace(old, new)\<close> for one-character \<open>old\<close> and \<open>new\<close>\<close>
  "replace_char old new s = map (\<lambda>c. if c = old then new else c) s"

section \<open>Text processing: \<open>src/text_processor.py\<close>\<close>

text \<open>
  A transcript segment is a dictionary read at the keys \<open>text\<close>, \<open>start\<close> and
  \<open>end\<close>; further keys of the transcription are the extension of the record. The
  processed segment is a new dictionary with these three keys only.
\<close>

record segment =
  "text" :: string
  start :: rat
  "end" :: rat

record 'a transcription =
  segments :: "'a segment_scheme list option"

record TextProcessor =
  remove_disfluencies :: bool
  simplify_language :: bool

definition process_text ::
  "TextProcessor \<Rightarrow> (string \<Rightarrow> string) \<Rightarrow> (string \<Rightarrow> string) \<Rightarrow> string \<Rightarrow> string" where
  \<comment> \<open>the body of the loop of \<open>process\<close> up to the test; the two private methods
      \<open>_remove_disfluencies\<close> and \<open>_simplify_language\<close> are the parameters\<close>
  "process_text self rd sl t =
     (let processed_text = t;
          processed_text = (if remove_disfluencies self then rd processed_text else processed_text);
          processed_text = (if simplify_language self then sl processed_text else processed_text)
      in processed_text)"

fun process_loop ::
  "(string \<Rightarrow> string) \<Rightarrow> 'a segment_scheme list \<Rightarrow> segment list" where
  "process_loop cleaner [] = []"
| "process_loop cleaner (s # ss) =
     (let processed_text = cleaner (text s) in
      if strip processed_text \<noteq> []
      then \<lparr>text = processed_text, start = start s, end = end s\<rparr> # process_loop cleaner ss
      else process_loop cleaner ss)"

definition word_count :: "'a segment_scheme list \<Rightarrow> nat" where
  "word_count ss = sum_list (map (\<lambda>s. length (split (text s))) ss)"

definition reduction_percent :: "nat \<Rightarrow> nat \<Rightarrow> rat" where
  "reduction_percent original_word_count processed_word_count =
     (if original_word_count > 0
      then 100 * (rat_of_nat original_word_count - rat_of_nat processed_word_count)
             / rat_of_nat original_word_count
      else 0)"

definition process ::
  "TextProcessor \<Rightarrow> (string \<Rightarrow> string) \<Rightarrow> (string \<Rightarrow> string) \<Rightarrow> 'a transcription
     \<Rightarrow> segment list \<times> rat" where
  \<comment> \<open>\<open>TextProcessor.process\<close>: the returned list, and the reduction it logs\<close>
  "process self rd sl tr =
     (let segs = (case segments tr of None \<Rightarrow> [] | Some ss \<Rightarrow> ss);
          processed_segments = process_loop (process_text self rd sl) segs;
          original_word_count = word_count segs;
          processed_word_count = word_count processed_segments
      in (processed_segments, reduction_percent original_word_count processed_word_count))"


definition kept_segments :: "(string \<Rightarrow> string) \<Rightarrow> 'a segment_scheme list \<Rightarrow> segment list" where
  \<comment> \<open>the segments whose cleaned text does not strip to the empty string, each with the
      cleaned text and its own start and end\<close>
  "kept_segments cleaner segs =
     map (\<lambda>s. \<lparr>text = cleaner (text s), start = start s, end = end s\<rparr>)
       (filter (\<lambda>s. strip (cleaner (text s)) \<noteq> []) segs)"

section \<open>Audio assets\<close>

text \<open>
  The audio library is not part of the repository. An audio asset is modelled by the
  pieces it was put together from, in order: a silence of a given length in
  milliseconds (\<open>AudioSegment.silent(duration=d)\<close>), or the audio decoded from a file,
  with the path of the file and its length in milliseconds. \<open>+\<close> on assets is \<open>@\<close>.
\<close>

datatype piece = Silence rat | Sound string nat

type_synonym AudioSegment = "piece list"

datatype error = Exception string

definition silent :: "rat \<Rightarrow> AudioSegment" where
  "silent duration = [Silence duration]"

fun piece_ms :: "piece \<Rightarrow> rat" where
  "piece_ms (Silence d) = d"
| "piece_ms (Sound f n) = rat_of_nat n"

definition len_ms :: "AudioSegment \<Rightarrow> rat" where
  \<comment> \<open>\<open>len(audio)\<close>: the length in milliseconds\<close>
  "len_ms a = sum_list (map piece_ms a)"

text \<open>
  The files that decode as audio, with the length of each; \<open>from_file\<close> raises on
  every other path.
\<close>

type_synonym audio_files = "string \<Rightarrow> nat option"

definition from_file :: "audio_files \<Rightarrow> string \<Rightarrow> error + AudioSegment" where
  "from_file fs p =
     (case fs p of None \<Rightarrow> Inl (Exception ''from_file'') | Some n \<Rightarrow> Inr [Sound p n])"

section \<open>Mixing: \<open>src/audio_mixer.py\<close>\<close>

text \<open>
  \<open>mix\<close> reads each segment dictionary with \<open>segment.get\<close> at three keys only; the
  record holds what \<open>get\<close> returns there, \<open>None\<close> for an absent key. The start and end
  are numbers when they are present. Creating the output directory and exporting the
  audio are taken to succeed.
\<close>

record mixer_segment =
  get_audio_file :: "string option"
  get_start :: "rat option"
  get_end :: "rat option"

record mix_state =
  combined :: AudioSegment
  last_end_time :: rat

definition mix_try ::
  "audio_files \<Rightarrow> bool \<Rightarrow> mix_state \<Rightarrow> mixer_segment \<Rightarrow> error + mix_state" where
  \<comment> \<open>the body of \<open>try\<close> for one segment; \<open>Inl\<close> is the exception it raises\<close>
  "mix_try fs maintain_timing st segment =
     (case get_audio_file segment of
        None \<Rightarrow> Inr st
      | Some audio_file \<Rightarrow>
          if audio_file = [] then Inr st
          else
            (case from_file fs audio_file of
               Inl e \<Rightarrow> Inl e
             | Inr audio \<Rightarrow>
                 (let st1 =
                    (if maintain_timing then
                       (let start_time =
                              (case get_start segment of None \<Rightarrow> last_end_time st | Some s \<Rightarrow> s);
                            silence_duration = max 0 ((start_time - last_end_time st) * 1000);
                            st0 = (if silence_duration > 0
                                   then st\<lparr>combined := combined st @ silent silence_duration\<rparr>
                                   else st)
                        in st0\<lparr>last_end_time :=
                                 (case get_end segment of
                                    None \<Rightarrow> start_time + len_ms audio / 1000
                                  | Some e \<Rightarrow> e)\<rparr>)
                     else st)
                  in Inr (st1\<lparr>combined := combined st1 @ audio\<rparr>))))"

definition mix_step :: "audio_files \<Rightarrow> bool \<Rightarrow> mix_state \<Rightarrow> mixer_segment \<Rightarrow> mix_state" where
  \<comment> \<open>one turn of the loop: \<open>except Exception\<close> logs and goes on to the next segment\<close>
  "mix_step fs maintain_timing st segment =
     (case mix_try fs maintain_timing st segment of Inl e \<Rightarrow> st | Inr st' \<Rightarrow> st')"

definition mix ::
  "audio_files \<Rightarrow> mixer_segment list \<Rightarrow> string \<Rightarrow> bool option \<Rightarrow> string \<times> AudioSegment" where
  \<comment> \<open>\<open>AudioMixer.mix\<close>: the path it returns and the audio it exports there; the last
      argument is \<open>None\<close> when the caller leaves \<open>maintain_timing\<close> out\<close>
  "mix fs segs output_path maintain_timing_arg =
     (let maintain_timing = (case maintain_timing_arg of None \<Rightarrow> True | Some b \<Rightarrow> b);
          st = foldl (mix_step fs maintain_timing) \<lparr>combined = silent 0, last_end_time = 0\<rparr> segs
      in (output_path, combined st))"

subsection \<open>The reference algorithm of the specification\<close>

text \<open>
  A synthesized segment of the specification: the audio asset, the original start and
  the original end, in seconds. The silence of the specification has its length in
  seconds.
\<close>

type_synonym SynthesizedSegment = "AudioSegment \<times> rat \<times> rat"

fun assemble_from :: "AudioSegment \<Rightarrow> rat \<Rightarrow> SynthesizedSegment list \<Rightarrow> AudioSegment" where
  "assemble_from acc last_end [] = acc"
| "assemble_from acc last_end ((audio, seg_start, seg_end) # rest) =
     (let gap = seg_start - last_end;
          acc1 = (if gap > 0 then acc @ silent (gap * 1000) else acc)
      in assemble_from (acc1 @ audio) seg_end rest)"

definition assemble :: "SynthesizedSegment list \<Rightarrow> AudioSegment" where
  "assemble segs = assemble_from [] 0 segs"

definition loaded_audio :: "audio_files \<Rightarrow> mixer_segment \<Rightarrow> AudioSegment" where
  \<comment> \<open>the audio a segment brings: nothing when it names no file or the file does not load\<close>
  "loaded_audio fs segment =
     (case get_audio_file segment of
        None \<Rightarrow> []
      | Some audio_file \<Rightarrow>
          if audio_file = [] then []
          else (case from_file fs audio_file of Inl e \<Rightarrow> [] | Inr audio \<Rightarrow> audio))"

definition loadable :: "audio_files \<Rightarrow> mixer_segment \<Rightarrow> bool" where
  "loadable fs segment =
     (case get_audio_file segment of
        None \<Rightarrow> False
      | Some audio_file \<Rightarrow> audio_file \<noteq> [] \<and> fs audio_file \<noteq> None)"

definition timed :: "mixer_segment \<Rightarrow> bool" where
  "timed segment = (get_start segment \<noteq> None \<and> get_end segment \<noteq> None)"

definition as_synthesized :: "audio_files \<Rightarrow> mixer_segment \<Rightarrow> SynthesizedSegment" where
  "as_synthesized fs segment =
     (loaded_audio fs segment,
      (case get_start segment of None \<Rightarrow> 0 | Some s \<Rightarrow> s),
      (case get_end segment of None \<Rightarrow> 0 | Some e \<Rightarrow> e))"


text \<open>
  The cursor of the specification, computed from the sequence alone: it starts at 0; a
  segment that is appended moves it to the segment's original end (to its start plus
  the length of its audio when it has no end); a segment that is skipped leaves it.
\<close>

definition next_cursor :: "audio_files \<Rightarrow> rat \<Rightarrow> mixer_segment \<Rightarrow> rat" where
  "next_cursor fs cur segment =
     (case get_audio_file segment of
        None \<Rightarrow> cur
      | Some audio_file \<Rightarrow>
          if audio_file = [] then cur
          else
            (case fs audio_file of
               None \<Rightarrow> cur
             | Some n \<Rightarrow>
                 (case get_end segment of
                    Some e \<Rightarrow> e
                  | None \<Rightarrow>
                      (case get_start segment of None \<Rightarrow> cur | Some s \<Rightarrow> s)
                        + rat_of_nat n / 1000)))"

definition cursor :: "audio_files \<Rightarrow> mixer_segment list \<Rightarrow> rat" where
  "cursor fs segs = foldl (next_cursor fs) 0 segs"

text \<open>
  \<open>combine_audio\<close> of \<open>speech_clarity_enhancer_local.py\<close>, the older assembler: it
  indexes the keys \<open>file\<close>, \<open>start\<close> and \<open>end\<close>, starts from \<open>AudioSegment.empty()\<close>
  and has no \<open>maintain_timing\<close> flag.
\<close>

type_synonym synthesized_file = "string \<times> rat \<times> rat"

definition combine_try ::
  "audio_files \<Rightarrow> mix_state \<Rightarrow> synthesized_file \<Rightarrow> error + mix_state" where
  "combine_try fs st segment =
     (case segment of (file, seg_start, seg_end) \<Rightarrow>
        (case from_file fs file of
           Inl e \<Rightarrow> Inl e
         | Inr audio \<Rightarrow>
             (let start_time = seg_start;
                  silence_duration = max 0 ((start_time - last_end_time st) * 1000);
                  st0 = (if silence_duration > 0
                         then st\<lparr>combined := combined st @ silent silence_duration\<rparr>
                         else st);
                  st1 = st0\<lparr>combined := combined st0 @ audio\<rparr>
              in Inr (st1\<lparr>last_end_time := seg_end\<rparr>))))"

definition combine_step :: "audio_files \<Rightarrow> mix_state \<Rightarrow> synthesized_file \<Rightarrow> mix_state" where
  "combine_step fs st segment =
     (case combine_try fs st segment of Inl e \<Rightarrow> st | Inr st' \<Rightarrow> st')"

definition file_as_synthesized :: "audio_files \<Rightarrow> synthesized_file \<Rightarrow> SynthesizedSegment" where
  "file_as_synthesized fs segment =
     (case segment of (file, seg_start, seg_end) \<Rightarrow>
        ((case from_file fs file of Inl e \<Rightarrow> [] | Inr audio \<Rightarrow> audio), seg_start, seg_end))"

section \<open>Naming the output: \<open>safe_title\<close>\<close>

definition safe_title :: "string \<Rightarrow> string" where
  \<comment> \<open>\<open>re.sub(r'[^\w\s-]', '', title).strip().replace(' ', '_')\<close>\<close>
  "safe_title title =
     replace_char (CHR '' '') (CHR ''_'')
       (strip (filter (\<lambda>c. isword c \<or> isspace c \<or> c = CHR ''-'') title))"

definition combine_audio ::
  "audio_files \<Rightarrow> string \<Rightarrow> synthesized_file list \<Rightarrow> string \<Rightarrow> string \<times> AudioSegment" where
  \<comment> \<open>the path it returns and the audio it exports there\<close>
  "combine_audio fs output_dir synthesized_files output_name =
     (let st = foldl (combine_step fs) \<lparr>combined = [], last_end_time = 0\<rparr> synthesized_files;
          safe_name = safe_title output_name;
          output_file = output_dir @ ''/'' @ safe_name @ ''_enhanced.mp3''
      in (output_file, combined st))"

subsection \<open>The sanitization as the specification words it\<close>

fun collapse_ws :: "bool \<Rightarrow> string \<Rightarrow> string" where
  \<comment> \<open>each run of whitespace becomes one underscore; the flag says that the character
      before was whitespace\<close>
  "collapse_ws in_run [] = []"
| "collapse_ws in_run (c # cs) =
     (if isspace c then (if in_run then collapse_ws True cs else CHR ''_'' # collapse_ws True cs)
      else c # collapse_ws False cs)"

definition sanitize_spec :: "string \<Rightarrow> string" where
  "sanitize_spec title =
     collapse_ws False (strip (filter (\<lambda>c. isalnum c \<or> isspace c \<or> c = CHR ''-'') title))"

fun single_spaced :: "string \<Rightarrow> bool" where
  \<comment> \<open>all whitespace is the space character, and no two of them are neighbours\<close>
  "single_spaced [] = True"
| "single_spaced [c] = (isspace c \<longrightarrow> c = CHR '' '')"
| "single_spaced (c # d # cs) =
     ((isspace c \<longrightarrow> c = CHR '' '' \<and> \<not> isspace d) \<and> single_spaced (d # cs))"

section \<open>Synthesis: \<open>src/speech_synthesizer.py\<close>\<close>

record synth_segment = segment +
  audio_file :: string

text \<open>
  The external synthesizer process, run on a text and an output file: it raises, or
  ends with a return code and what it wrote to the error stream.
\<close>

type_synonym piper = "string \<Rightarrow> string \<Rightarrow> error + (int \<times> string)"

definition synthesize_text :: "piper \<Rightarrow> string \<Rightarrow> string \<Rightarrow> error + unit" where
  \<comment> \<open>\<open>_synthesize_text\<close>: every exception is logged and raised again\<close>
  "synthesize_text run_piper txt output_file =
     (case run_piper txt output_file of
        Inl e \<Rightarrow> Inl e
      | Inr (returncode, stderr) \<Rightarrow>
          if returncode \<noteq> 0 then Inl (Exception (''Speech synthesis failed: '' @ stderr))
          else Inr ())"

fun digits :: "nat \<Rightarrow> string" where
  "digits n =
     (if n < 10 then [''0123456789'' ! n]
      else digits (n div 10) @ [''0123456789'' ! (n mod 10)])"

declare digits.simps [simp del]

definition fmt_04d :: "nat \<Rightarrow> string" where
  \<comment> \<open>the format \<open>{i:04d}\<close>\<close>
  "fmt_04d i = replicate (4 - length (digits i)) (CHR ''0'') @ digits i"

definition segment_name :: "nat \<Rightarrow> string" where
  "segment_name i = ''segment_'' @ fmt_04d i @ ''.wav''"

definition path_name :: "string \<Rightarrow> string" where
  \<comment> \<open>\<open>Path(p).name\<close>: the last component of a path\<close>
  "path_name p = rev (takeWhile (\<lambda>c. c \<noteq> CHR ''/'') (rev p))"

fun synthesize_loop :: "piper \<Rightarrow> string \<Rightarrow> nat \<Rightarrow> 'a segment_scheme list \<Rightarrow> synth_segment list" where
  "synthesize_loop run_piper temp_dir i [] = []"
| "synthesize_loop run_piper temp_dir i (segment # rest) =
     (let txt = strip (text segment);
          start_time = start segment;
          end_time = end segment
      in if txt = [] then synthesize_loop run_piper temp_dir (Suc i) rest
         else
           (let output_file = temp_dir @ ''/'' @ segment_name i in
            case synthesize_text run_piper txt output_file of
              Inr u \<Rightarrow>
                \<lparr>text = txt, start = start_time, end = end_time, audio_file = output_file\<rparr>
                  # synthesize_loop run_piper temp_dir (Suc i) rest
            | Inl e \<Rightarrow> synthesize_loop run_piper temp_dir (Suc i) rest))"

type_synonym copy2 = "string \<Rightarrow> string \<Rightarrow> error + unit"

fun copy_loop :: "copy2 \<Rightarrow> string \<Rightarrow> synth_segment list \<Rightarrow> error + synth_segment list" where
  \<comment> \<open>the second loop of \<open>synthesize\<close>: it has no \<open>try\<close>, so the first copy that raises
      ends the call\<close>
  "copy_loop copy gettempdir [] = Inr []"
| "copy_loop copy gettempdir (segment # rest) =
     (let source_file = audio_file segment;
          target_file = gettempdir @ ''/'' @ path_name source_file
      in case copy source_file target_file of
           Inl e \<Rightarrow> Inl e
         | Inr u \<Rightarrow>
             (case copy_loop copy gettempdir rest of
                Inl e \<Rightarrow> Inl e
              | Inr result_segments \<Rightarrow>
                  Inr (segment\<lparr>audio_file := target_file\<rparr> # result_segments)))"

definition synthesize ::
  "piper \<Rightarrow> copy2 \<Rightarrow> string \<Rightarrow> string \<Rightarrow> 'a segment_scheme list
     \<Rightarrow> error + synth_segment list" where
  \<comment> \<open>\<open>PiperTTSSynthesizer.synthesize\<close>; \<open>copy\<close> is \<open>shutil.copy2\<close>, \<open>temp_dir\<close> the fresh
      temporary directory and \<open>gettempdir\<close> the directory the files are copied to\<close>
  "synthesize run_piper copy temp_dir gettempdir segs =
     (let synthesized_segments = synthesize_loop run_piper temp_dir 0 segs
      in copy_loop copy gettempdir synthesized_segments)"

definition succeeds :: "piper \<Rightarrow> string \<Rightarrow> nat \<Rightarrow> 'a segment_scheme \<Rightarrow> bool" where
  \<comment> \<open>the segment at index \<open>i\<close> has text and its synthesis does not raise\<close>
  "succeeds run_piper temp_dir i segment =
     (strip (text segment) \<noteq> [] \<and>
      (case synthesize_text run_piper (strip (text segment)) (temp_dir @ ''/'' @ segment_name i) of
         Inl e \<Rightarrow> False
       | Inr u \<Rightarrow> True))"

definition synthesized_at :: "string \<Rightarrow> 'a segment_scheme list \<Rightarrow> nat \<Rightarrow> synth_segment" where
  \<comment> \<open>the result for the segment at index \<open>i\<close>, with its audio in directory \<open>dir\<close>\<close>
  "synthesized_at dir segs i =
     \<lparr>text = strip (text (segs ! i)), start = start (segs ! i), end = end (segs ! i),
      audio_file = dir @ ''/'' @ segment_name i\<rparr>"

section \<open>The pipeline: \<open>enhanced_speech_tool.py\<close>\<close>

text \<open>
  The tool holds its five components. Each is a call that returns or raises. Only the
  mixer is given a path under the output directory, and it tells which files it has
  written there when it stops. \<open>process\<close> gives the files written under the output
  directory, by the mixer and by \<open>process\<close> itself, and what the caller gets: the
  output path, or the exception. The files under the temporary directories (the audio
  of the extractor, the transcription files of the transcriber, the two transcripts
  that \<open>process\<close> saves, the synthesized audio) are not recorded. Writing the text
  transcript is taken to succeed.
\<close>

record 'a EnhancedSpeechTool =
  temp_dir :: string
  output_dir :: string
  extractor :: "string \<Rightarrow> string \<Rightarrow> error + (string \<times> string)"
  transcriber :: "string \<Rightarrow> error + 'a transcription"
  text_processor :: "'a transcription \<Rightarrow> error + segment list"
  synthesizer :: "segment list \<Rightarrow> error + synth_segment list"
  mixer :: "synth_segment list \<Rightarrow> string \<Rightarrow> string list \<times> (error + string)"






section \<open>Scenarios\<close>

text \<open>
  Scenario A of the specification: two segments, from 0 to 2 and from 3 to 4 seconds,
  whose synthesized audio lasts 2 and 1 seconds.
\<close>

definition scenario_A_files :: audio_files where
  "scenario_A_files p =
     (if p = ''audio1.wav'' then Some 2000 else if p = ''audio2.wav'' then Some 1000 else None)"

definition scenario_A_first :: mixer_segment where
  "scenario_A_first =
     \<lparr>get_audio_file = Some ''audio1.wav'', get_start = Some 0, get_end = Some 2\<rparr>"

definition scenario_A_second :: mixer_segment where
  "scenario_A_second =
     \<lparr>get_audio_file = Some ''audio2.wav'', get_start = Some 3, get_end = Some 4\<rparr>"

definition unreadable_segment :: mixer_segment where
  \<comment> \<open>a segment whose file does not decode\<close>
  "unreadable_segment =
     \<lparr>get_audio_file = Some ''missing.wav'', get_start = Some 2, get_end = Some 3\<rparr>"

definition overlapping_segment :: mixer_segment where
  \<comment> \<open>a segment that starts before the end of \<open>scenario_A_first\<close>\<close>
  "overlapping_segment =
     \<lparr>get_audio_file = Some ''audio2.wav'', get_start = Some 1, get_end = Some 4\<rparr>"

text \<open>The cleaner of Scenario A: it takes a leading \<open>um\<close> away.\<close>

definition strip_um :: "string \<Rightarrow> string" where
  "strip_um t = (if take 3 t = ''um '' then drop 3 t else t)"

definition scenario_A_transcription :: "unit transcription" where
  "scenario_A_transcription =
     \<lparr>segments = Some [\<lparr>text = ''um hello'', start = 0, end = 2\<rparr>,
                       \<lparr>text = ''world'', start = 3, end = 4\<rparr>]\<rparr>"

definition blank_transcription :: "unit transcription" where
  \<comment> \<open>three segments, the second of whitespace only\<close>
  "blank_transcription =
     \<lparr>segments = Some [\<lparr>text = ''hello'', start = 0, end = 2\<rparr>,
                       \<lparr>text = ''   '', start = 2, end = 3\<rparr>,
                       \<lparr>text = ''world'', start = 3, end = 4\<rparr>]\<rparr>"

text \<open>
  Scenario B of the specification: of three segments, the synthesis of the second fails
  (the process ends with return code 1). Every copy goes through.
\<close>

definition scenario_B_piper :: piper where
  "scenario_B_piper txt output_file =
     (if txt = ''bad'' then Inr (1, ''no voice'') else Inr (0, []))"

definition copy_succeeds :: copy2 where
  "copy_succeeds source_file target_file = Inr ()"

definition scenario_B_segments :: "segment list" where
  "scenario_B_segments =
     [\<lparr>text = ''one'', start = 0, end = 1\<rparr>,
      \<lparr>text = '' bad '', start = 1, end = 2\<rparr>,
      \<lparr>text = ''three'', start = 2, end = 3\<rparr>]"

text \<open>
  A run in which the process ends with return code 0 for each of the three segments
  and leaves no file for the second: \<open>shutil.copy2\<close> raises on that file.
\<close>

definition piper_exits_zero :: piper where
  "piper_exits_zero txt output_file = Inr (0, [])"

definition second_file_missing :: copy2 where
  "second_file_missing source_file target_file =
     (if source_file = ''/tmp/work/segment_0001.wav''
      then Inl (Exception ''FileNotFoundError'') else Inr ())"





section \<open>Properties of the mixer\<close>

lemma mix_step_unloadable: "\<not> loadable fs seg \<Longrightarrow> mix_step fs mt st seg = st"
  by (auto simp: loadable_def mix_step_def mix_try_def from_file_def split: option.splits)

lemma mix_try_loadable:
  assumes "get_audio_file seg = Some f" "f \<noteq> []" "fs f = Some n"
  shows "mix_try fs True st seg =
     Inr \<lparr>combined =
            combined st
              @ (if (case get_start seg of None \<Rightarrow> last_end_time st | Some s \<Rightarrow> s) > last_end_time st
                 then silent (((case get_start seg of None \<Rightarrow> last_end_time st | Some s \<Rightarrow> s)
                                - last_end_time st) * 1000)
                 else [])
              @ [Sound f n],
          last_end_time =
            (case get_end seg of
               None \<Rightarrow> (case get_start seg of None \<Rightarrow> last_end_time st | Some s \<Rightarrow> s)
                          + rat_of_nat n / 1000
             | Some e \<Rightarrow> e)\<rparr>"
  using assms
  by (auto simp: mix_try_def from_file_def Let_def len_ms_def max_def split: option.splits)

lemma assemble_from_append:
  "assemble_from (a @ b) l xs = a @ assemble_from b l xs"
  by (induction xs arbitrary: b l) (auto simp: Let_def)

lemma mix_loop_assemble:
  assumes "\<forall>seg\<in>set segs. loadable fs seg \<and> timed seg"
  shows "combined (foldl (mix_step fs True) st segs) =
           assemble_from (combined st) (last_end_time st) (map (as_synthesized fs) segs)"
  using assms
proof (induction segs arbitrary: st)
  case Nil
  then show ?case by simp
next
  case (Cons seg segs)
  from Cons.prems obtain f n s e where
    seg: "get_audio_file seg = Some f" "f \<noteq> []" "fs f = Some n"
         "get_start seg = Some s" "get_end seg = Some e"
    by (auto simp: loadable_def timed_def split: option.splits)
  have step: "mix_step fs True st seg =
      \<lparr>combined = combined st
                     @ (if s > last_end_time st then silent ((s - last_end_time st) * 1000) else [])
                     @ [Sound f n],
       last_end_time = e\<rparr>"
    using mix_try_loadable[of seg f fs n st] seg by (simp add: mix_step_def)
  have syn: "as_synthesized fs seg = ([Sound f n], s, e)"
    using seg by (simp add: as_synthesized_def loaded_audio_def from_file_def)
  have "combined (foldl (mix_step fs True) (mix_step fs True st seg) segs) =
          assemble_from (combined (mix_step fs True st seg)) (last_end_time (mix_step fs True st seg))
            (map (as_synthesized fs) segs)"
    using Cons.IH Cons.prems by simp
  then show ?case
    by (simp add: step syn Let_def)
qed

lemma combine_loop_assemble:
  assumes "\<forall>seg\<in>set files. fs (fst seg) \<noteq> None"
  shows "combined (foldl (combine_step fs) st files) =
           assemble_from (combined st) (last_end_time st) (map (file_as_synthesized fs) files)"
  using assms
proof (induction files arbitrary: st)
  case Nil
  then show ?case by simp
next
  case (Cons seg files)
  obtain f s e where seg: "seg = (f, s, e)" by (cases seg) auto
  from Cons.prems seg obtain n where n: "fs f = Some n" by auto
  have step: "combine_step fs st seg =
      \<lparr>combined = combined st
                     @ (if s > last_end_time st then silent ((s - last_end_time st) * 1000) else [])
                     @ [Sound f n],
       last_end_time = e\<rparr>"
    using n by (auto simp: seg combine_step_def combine_try_def from_file_def Let_def max_def)
  have syn: "file_as_synthesized fs seg = ([Sound f n], s, e)"
    using n by (simp add: seg file_as_synthesized_def from_file_def)
  have "combined (foldl (combine_step fs) (combine_step fs st seg) files) =
          assemble_from (combined (combine_step fs st seg)) (last_end_time (combine_step fs st seg))
            (map (file_as_synthesized fs) files)"
    using Cons.IH Cons.prems by simp
  then show ?case
    by (simp add: step syn Let_def)
qed

lemma mix_loop_untimed:
  "foldl (mix_step fs False) st segs =
     st\<lparr>combined := combined st @ concat (map (loaded_audio fs) segs)\<rparr>"
proof (induction segs arbitrary: st)
  case Nil
  then show ?case by simp
next
  case (Cons seg segs)
  have "mix_step fs False st seg = st\<lparr>combined := combined st @ loaded_audio fs seg\<rparr>"
    by (simp add: mix_step_def mix_try_def loaded_audio_def split: option.splits sum.splits)
  then show ?case by (simp add: Cons.IH)
qed

lemma loaded_audio_Sound: "p \<in> set (loaded_audio fs seg) \<Longrightarrow> \<exists>f n. p = Sound f n"
  by (auto simp: loaded_audio_def from_file_def split: option.splits if_splits)

lemma mix_step_silences:
  assumes "\<forall>d. Silence d \<in> set (combined st) \<longrightarrow> 0 \<le> d"
  shows "\<forall>d. Silence d \<in> set (combined (mix_step fs mt st seg)) \<longrightarrow> 0 \<le> d"
  using assms
  by (auto simp: mix_step_def mix_try_def from_file_def Let_def silent_def max_def
           split: option.splits if_splits)

lemma mix_loop_silences:
  assumes "\<forall>d. Silence d \<in> set (combined st) \<longrightarrow> 0 \<le> d"
  shows "\<forall>d. Silence d \<in> set (combined (foldl (mix_step fs mt) st segs)) \<longrightarrow> 0 \<le> d"
  using assms
proof (induction segs arbitrary: st)
  case Nil
  then show ?case by simp
next
  case (Cons seg segs)
  show ?case
    using Cons.IH[OF mix_step_silences[OF Cons.prems]] by simp
qed

lemma len_ms_append: "len_ms (a @ b) = len_ms a + len_ms b"
  by (simp add: len_ms_def)

text \<open>
  C1. With \<open>maintain_timing\<close> left at its default, on segments that all load and carry
  start and end, \<open>mix\<close> exports what the reference algorithm of the specification
  assembles (after the zero-length silence it starts from), and so does
  \<open>combine_audio\<close>: before each segment a silence of \<open>start - last_end_time\<close> seconds
  when that is positive, then the audio as it is, and the cursor moves to the original
  end of the segment.
\<close>

theorem mix_refines_assemble:
  assumes "\<forall>seg\<in>set segs. loadable fs seg \<and> timed seg"
      and "\<forall>seg\<in>set files. fs (fst seg) \<noteq> None"
  shows "mix fs segs output_path None =
           (output_path, silent 0 @ assemble (map (as_synthesized fs) segs))
         \<and> len_ms (snd (mix fs segs output_path None))
             = len_ms (assemble (map (as_synthesized fs) segs))
         \<and> snd (combine_audio fs dir files output_name)
             = assemble (map (file_as_synthesized fs) files)"
proof -
  have "combined (foldl (mix_step fs True) \<lparr>combined = silent 0, last_end_time = 0\<rparr> segs)
          = assemble_from (silent 0 @ []) 0 (map (as_synthesized fs) segs)"
    using mix_loop_assemble[OF assms(1), of "\<lparr>combined = silent 0, last_end_time = 0\<rparr>"] by simp
  then have m: "mix fs segs output_path None =
           (output_path, silent 0 @ assemble (map (as_synthesized fs) segs))"
    unfolding assemble_from_append by (simp add: mix_def assemble_def)
  have c: "snd (combine_audio fs dir files output_name)
             = assemble (map (file_as_synthesized fs) files)"
    using combine_loop_assemble[OF assms(2), of "\<lparr>combined = [], last_end_time = 0\<rparr>"]
    by (simp add: combine_audio_def assemble_def Let_def)
  show ?thesis
    using m c by (simp add: len_ms_append silent_def len_ms_def)
qed

theorem mix_scenario_A:
  "loadable scenario_A_files scenario_A_first \<and> timed scenario_A_first
   \<and> loadable scenario_A_files scenario_A_second \<and> timed scenario_A_second
   \<and> mix scenario_A_files [scenario_A_first, scenario_A_second] ''out.mp3'' None
       = (''out.mp3'',
          [Silence 0, Sound ''audio1.wav'' 2000, Silence 1000, Sound ''audio2.wav'' 1000])
   \<and> len_ms (snd (mix scenario_A_files [scenario_A_first, scenario_A_second] ''out.mp3'' None))
       = 4000
   \<and> snd (combine_audio scenario_A_files ''enhanced_audio''
             [(''audio1.wav'', 0, 2), (''audio2.wav'', 3, 4)] ''A talk'')
       = [Sound ''audio1.wav'' 2000, Silence 1000, Sound ''audio2.wav'' 1000]"
  using mix_refines_assemble [of "[scenario_A_first, scenario_A_second]" scenario_A_files
      "[(''audio1.wav'', 0, 2), (''audio2.wav'', 3, 4)]" "''out.mp3''" "''enhanced_audio''" "''A talk''"]
  by (simp add: scenario_A_files_def scenario_A_first_def scenario_A_second_def loadable_def
      timed_def as_synthesized_def file_as_synthesized_def loaded_audio_def from_file_def
      assemble_def silent_def len_ms_def Let_def)


lemma mix_step_cursor:
  "last_end_time (mix_step fs True st seg) = next_cursor fs (last_end_time st) seg"
  by (simp add: mix_step_def mix_try_def next_cursor_def from_file_def Let_def len_ms_def
      split: option.splits)

lemma mix_loop_cursor:
  "last_end_time (foldl (mix_step fs True) st segs)
     = foldl (next_cursor fs) (last_end_time st) segs"
  by (induction segs arbitrary: st) (simp_all add: mix_step_cursor)

lemma mix_try_returns:
  assumes "get_audio_file seg = Some f" "f \<noteq> []" "fs f = Some n"
  shows "\<exists>st'. mix_try fs mt st seg = Inr st'"
  using assms by (simp add: mix_try_def from_file_def Let_def)

text \<open>
  C2. In every run of \<open>mix\<close> with the timing kept, a segment that loads is appended
  with a silence of exactly \<open>max 0 (start - last_end_time)\<close> seconds before its audio,
  where \<open>last_end_time\<close> is the cursor of the sequence before it: the silence is there
  when the start is after the cursor and absent otherwise, what was assembled before
  stays whole (nothing is trimmed), and the cursor moves to the original end of the
  segment. The body of the loop returns whatever the cursor is, also when the start is
  before it. No silence in the output of any run has a negative length.
\<close>

theorem mix_inserts_exact_gap:
  assumes "get_audio_file seg = Some f" and "f \<noteq> []" and "fs f = Some n"
      and "get_start seg = Some s"
  shows "snd (mix fs (before @ [seg]) output_path None)
           = snd (mix fs before output_path None)
             @ (if s > cursor fs before then silent ((s - cursor fs before) * 1000) else [])
             @ [Sound f n]
         \<and> len_ms (snd (mix fs (before @ [seg]) output_path None))
           = len_ms (snd (mix fs before output_path None))
             + max 0 (s - cursor fs before) * 1000 + rat_of_nat n
         \<and> (s < cursor fs before
              \<longrightarrow> snd (mix fs (before @ [seg]) output_path None)
                   = snd (mix fs before output_path None) @ [Sound f n])
         \<and> cursor fs (before @ [seg])
           = (case get_end seg of None \<Rightarrow> s + rat_of_nat n / 1000 | Some e \<Rightarrow> e)
         \<and> cursor fs [] = 0
         \<and> (\<forall>x. \<not> loadable fs x \<longrightarrow> cursor fs (before @ [x]) = cursor fs before)
         \<and> (\<exists>st'. mix_try fs True st seg = Inr st')
         \<and> (\<forall>d. Silence d \<in> set (snd (mix fs segs output_path mt)) \<longrightarrow> 0 \<le> d)"
proof -
  define st0 where "st0 = foldl (mix_step fs True) \<lparr>combined = silent 0, last_end_time = 0\<rparr> before"
  have cur: "last_end_time st0 = cursor fs before"
    by (simp add: st0_def mix_loop_cursor cursor_def)
  have before: "snd (mix fs before output_path None) = combined st0"
    by (simp add: mix_def st0_def)
  have step: "mix_step fs True st0 seg =
      \<lparr>combined = combined st0
                     @ (if s > last_end_time st0 then silent ((s - last_end_time st0) * 1000) else [])
                     @ [Sound f n],
       last_end_time = (case get_end seg of None \<Rightarrow> s + rat_of_nat n / 1000 | Some e \<Rightarrow> e)\<rparr>"
    using mix_try_loadable[of seg f fs n st0] assms
    by (simp add: mix_step_def split: option.splits)
  have a: "snd (mix fs (before @ [seg]) output_path None)
           = snd (mix fs before output_path None)
             @ (if s > cursor fs before then silent ((s - cursor fs before) * 1000) else [])
             @ [Sound f n]"
    unfolding before
    using step cur by (simp add: mix_def st0_def)
  have b: "len_ms (snd (mix fs (before @ [seg]) output_path None))
           = len_ms (snd (mix fs before output_path None))
             + max 0 (s - cursor fs before) * 1000 + rat_of_nat n"
    unfolding a by (simp add: len_ms_def silent_def max_def)
  have c: "s < cursor fs before
              \<longrightarrow> snd (mix fs (before @ [seg]) output_path None)
                   = snd (mix fs before output_path None) @ [Sound f n]"
    unfolding a by simp
  have d: "cursor fs (before @ [seg])
           = (case get_end seg of None \<Rightarrow> s + rat_of_nat n / 1000 | Some e \<Rightarrow> e)"
    using assms by (simp add: cursor_def next_cursor_def split: option.splits)
  have e: "cursor fs [] = 0"
    by (simp add: cursor_def)
  have f: "\<forall>x. \<not> loadable fs x \<longrightarrow> cursor fs (before @ [x]) = cursor fs before"
    by (auto simp: cursor_def next_cursor_def loadable_def split: option.splits)
  have g: "\<exists>st'. mix_try fs True st seg = Inr st'"
    using mix_try_returns assms(1,2,3) by blast
  have "\<forall>d. Silence d \<in> set (combined \<lparr>combined = silent 0, last_end_time = 0\<rparr>) \<longrightarrow> 0 \<le> d"
    by (simp add: silent_def)
  then have h: "\<forall>d. Silence d \<in> set (snd (mix fs segs output_path mt)) \<longrightarrow> 0 \<le> d"
    using mix_loop_silences [of "\<lparr>combined = silent 0, last_end_time = 0\<rparr>" fs
        "case mt of None \<Rightarrow> True | Some b \<Rightarrow> b" segs]
    by (simp add: mix_def)
  show ?thesis
    using a b c d e f g h by blast
qed

theorem mix_gap_examples:
  "snd (mix scenario_A_files [scenario_A_first, scenario_A_second] ''out.mp3'' None)
     = snd (mix scenario_A_files [scenario_A_first] ''out.mp3'' None)
       @ [Silence 1000, Sound ''audio2.wav'' 1000]
   \<and> cursor scenario_A_files [scenario_A_first] = 2
   \<and> cursor scenario_A_files [scenario_A_first, scenario_A_second] = 4
   \<and> snd (mix scenario_A_files [scenario_A_first, overlapping_segment] ''out.mp3'' None)
     = snd (mix scenario_A_files [scenario_A_first] ''out.mp3'' None)
       @ [Sound ''audio2.wav'' 1000]
   \<and> snd (mix scenario_A_files [scenario_A_first] ''out.mp3'' None)
     = [Silence 0, Sound ''audio1.wav'' 2000]"
proof -
  have c1: "cursor scenario_A_files [scenario_A_first] = 2"
    by (simp add: cursor_def next_cursor_def scenario_A_first_def scenario_A_files_def)
  have second: "get_audio_file scenario_A_second = Some ''audio2.wav''"
      "''audio2.wav'' \<noteq> []" "scenario_A_files ''audio2.wav'' = Some 1000"
      "get_start scenario_A_second = Some 3" "get_end scenario_A_second = Some 4"
    by (simp_all add: scenario_A_second_def scenario_A_files_def)
  have over: "get_audio_file overlapping_segment = Some ''audio2.wav''"
      "get_start overlapping_segment = Some 1"
    by (simp_all add: overlapping_segment_def)
  have first: "snd (mix scenario_A_files [scenario_A_first] ''out.mp3'' None)
     = [Silence 0, Sound ''audio1.wav'' 2000]"
    by (simp add: mix_def mix_step_def mix_try_def from_file_def scenario_A_files_def
        scenario_A_first_def silent_def len_ms_def Let_def)
  have gap: "snd (mix scenario_A_files ([scenario_A_first] @ [scenario_A_second]) ''out.mp3'' None)
     = snd (mix scenario_A_files [scenario_A_first] ''out.mp3'' None)
       @ [Silence 1000, Sound ''audio2.wav'' 1000]
     \<and> cursor scenario_A_files ([scenario_A_first] @ [scenario_A_second]) = 4"
    using mix_inserts_exact_gap [of scenario_A_second "''audio2.wav''" scenario_A_files 1000 3
        "[scenario_A_first]" "''out.mp3''"] second
    by (simp add: c1 silent_def)
  have ov: "snd (mix scenario_A_files ([scenario_A_first] @ [overlapping_segment]) ''out.mp3'' None)
     = snd (mix scenario_A_files [scenario_A_first] ''out.mp3'' None)
       @ [Sound ''audio2.wav'' 1000]"
    using mix_inserts_exact_gap [of overlapping_segment "''audio2.wav''" scenario_A_files 1000 1
        "[scenario_A_first]" "''out.mp3''"] second(2,3) over
    by (simp add: c1)
  show ?thesis
    using c1 first gap ov by simp
qed

text \<open>
  C7. A segment that names no audio file, or whose file does not load, leaves the
  assembled audio and the cursor \<open>last_end_time\<close> as they were, and the run goes on:
  the output is that of the same sequence without the segment.
\<close>

theorem mix_skips_unloadable:
  assumes "\<not> loadable fs seg"
  shows "mix_step fs maintain_timing st seg = st
         \<and> mix fs (before @ seg # after) output_path mt = mix fs (before @ after) output_path mt"
  using mix_step_unloadable[OF assms] by (simp add: mix_def)

theorem mix_skips_unloadable_example:
  "\<not> loadable scenario_A_files unreadable_segment
   \<and> mix_step scenario_A_files True
         \<lparr>combined = [Sound ''audio1.wav'' 2000], last_end_time = 2\<rparr> unreadable_segment
       = \<lparr>combined = [Sound ''audio1.wav'' 2000], last_end_time = 2\<rparr>
   \<and> mix scenario_A_files [scenario_A_first, unreadable_segment, scenario_A_second] ''out.mp3'' None
       = (''out.mp3'',
          [Silence 0, Sound ''audio1.wav'' 2000, Silence 1000, Sound ''audio2.wav'' 1000])"
proof -
  have u: "\<not> loadable scenario_A_files unreadable_segment"
    by (simp add: loadable_def unreadable_segment_def scenario_A_files_def)
  have "mix scenario_A_files [scenario_A_first, scenario_A_second] ''out.mp3'' None
       = (''out.mp3'',
          [Silence 0, Sound ''audio1.wav'' 2000, Silence 1000, Sound ''audio2.wav'' 1000])"
    by (simp add: mix_def mix_step_def mix_try_def from_file_def scenario_A_files_def
        scenario_A_first_def scenario_A_second_def silent_def len_ms_def Let_def)
  then show ?thesis
    using u mix_skips_unloadable [OF u, of True
        "\<lparr>combined = [Sound ''audio1.wav'' 2000], last_end_time = 2\<rparr>"
        "[scenario_A_first]" "[scenario_A_second]" "''out.mp3''" None]
    by simp
qed

text \<open>
  C10. \<open>maintain_timing\<close> is true when the caller leaves it out. With
  \<open>maintain_timing=False\<close> the output is the zero-length silence \<open>mix\<close> starts from,
  followed by the audio of the segments that load, in the order of the input; it holds
  no silence besides, and it is the same whatever the start and end of the segments.
\<close>

theorem mix_without_timing:
  "mix fs segs output_path None = mix fs segs output_path (Some True)
   \<and> mix fs segs output_path (Some False)
       = (output_path, silent 0 @ concat (map (loaded_audio fs) segs))
   \<and> (\<forall>d. Silence d \<notin> set (concat (map (loaded_audio fs) segs)))
   \<and> mix fs (map (\<lambda>seg. seg\<lparr>get_start := new_start seg, get_end := new_end seg\<rparr>) segs)
         output_path (Some False)
       = mix fs segs output_path (Some False)"
proof -
  have a: "mix fs ss output_path (Some False)
       = (output_path, silent 0 @ concat (map (loaded_audio fs) ss))" for ss
    by (simp add: mix_def mix_loop_untimed)
  have b: "\<forall>d. Silence d \<notin> set (concat (map (loaded_audio fs) segs))"
    using loaded_audio_Sound by fastforce
  have c: "loaded_audio fs (seg\<lparr>get_start := x, get_end := y\<rparr>) = loaded_audio fs seg" for seg x y
    by (simp add: loaded_audio_def)
  have d: "map (loaded_audio fs) (map (\<lambda>seg. seg\<lparr>get_start := new_start seg, get_end := new_end seg\<rparr>) segs)
         = map (loaded_audio fs) segs"
    by (simp add: c)
  have e: "mix fs segs output_path None = mix fs segs output_path (Some True)"
    by (simp add: mix_def)
  have f: "mix fs (map (\<lambda>seg. seg\<lparr>get_start := new_start seg, get_end := new_end seg\<rparr>) segs)
         output_path (Some False)
       = mix fs segs output_path (Some False)"
    unfolding a d ..
  show ?thesis
    using a [of segs] b e f by blast
qed


section \<open>Properties of the text processor\<close>

lemma process_loop_kept: "process_loop cleaner segs = kept_segments cleaner segs"
  by (induction segs) (simp_all add: Let_def kept_segments_def)

lemma process_text_plain:
  "process_text \<lparr>remove_disfluencies = False, simplify_language = False\<rparr> rd sl x = x"
  by (simp add: process_text_def)

text \<open>
  C6. \<open>process\<close> returns the segments whose cleaned text does not strip to the empty
  string, in order, each with the cleaned text and the start and end it had; the
  reduction it logs is \<open>100 * (original - result) / original\<close> over the word counts,
  and 0 when the original count is 0.
\<close>

theorem process_drops_empty_and_reports:
  "process self rd sl \<lparr>segments = Some segs\<rparr> =
     (kept_segments (process_text self rd sl) segs,
      if word_count segs = 0 then 0
      else 100 * (rat_of_nat (word_count segs)
                   - rat_of_nat (word_count (kept_segments (process_text self rd sl) segs)))
             / rat_of_nat (word_count segs))"
  by (simp add: process_def Let_def process_loop_kept reduction_percent_def)

theorem process_scenario_A:
  "process \<lparr>remove_disfluencies = True, simplify_language = False\<rparr> strip_um rev
       scenario_A_transcription
     = ([\<lparr>text = ''hello'', start = 0, end = 2\<rparr>, \<lparr>text = ''world'', start = 3, end = 4\<rparr>],
        100 / 3)"
  using process_drops_empty_and_reports
    [of "\<lparr>remove_disfluencies = True, simplify_language = False\<rparr>" strip_um rev
        "[\<lparr>text = ''um hello'', start = 0, end = 2\<rparr>, \<lparr>text = ''world'', start = 3, end = 4\<rparr>]"]
  by (simp add: scenario_A_transcription_def kept_segments_def process_text_def strip_um_def
      strip_def isspace_def word_count_def split_def)

text \<open>
  C8. When the cleaner is the identity, \<open>process\<close> returns the segments whose text does
  not strip to the empty string, as they are, in order. (On segment dictionaries with
  further keys, the segments returned have the keys \<open>text\<close>, \<open>start\<close> and \<open>end\<close> only.)
\<close>

theorem process_identity_cleaner:
  fixes segs :: "segment list" and more_segs :: "'a segment_scheme list"
  assumes "\<forall>x. process_text self rd sl x = x"
  shows "fst (process self rd sl \<lparr>segments = Some segs\<rparr>)
           = filter (\<lambda>s. strip (text s) \<noteq> []) segs
         \<and> fst (process self rd sl \<lparr>segments = Some more_segs\<rparr>)
           = map segment.truncate (filter (\<lambda>s. strip (text s) \<noteq> []) more_segs)"
proof -
  have c: "process_text self rd sl = (\<lambda>x. x)"
    using assms by auto
  have a: "kept_segments (\<lambda>x. x) segs = filter (\<lambda>s. strip (text s) \<noteq> []) segs"
    by (induction segs) (simp_all add: kept_segments_def)
  have b: "kept_segments (\<lambda>x. x) more_segs
             = map segment.truncate (filter (\<lambda>s. strip (text s) \<noteq> []) more_segs)"
    by (simp add: kept_segments_def segment.defs)
  show ?thesis
    by (simp add: process_def Let_def process_loop_kept c a b)
qed

theorem process_identity_example:
  "(\<forall>x. process_text \<lparr>remove_disfluencies = False, simplify_language = False\<rparr> strip_um rev x = x)
   \<and> fst (process \<lparr>remove_disfluencies = False, simplify_language = False\<rparr> strip_um rev
            blank_transcription)
       = [\<lparr>text = ''hello'', start = 0, end = 2\<rparr>, \<lparr>text = ''world'', start = 3, end = 4\<rparr>]"
proof -
  have h: "\<forall>x. process_text \<lparr>remove_disfluencies = False, simplify_language = False\<rparr>
                 strip_um rev x = x"
    by (simp add: process_text_plain)
  show ?thesis
    using h process_identity_cleaner
      [where self = "\<lparr>remove_disfluencies = False, simplify_language = False\<rparr>"
         and rd = strip_um and sl = rev
         and segs = "[\<lparr>text = ''hello'', start = 0, end = 2\<rparr>,
                      \<lparr>text = ''   '', start = 2, end = 3\<rparr>,
                      \<lparr>text = ''world'', start = 3, end = 4\<rparr>]"
         and more_segs = "[] :: segment list"]
    by (simp add: blank_transcription_def strip_def isspace_def)
qed


text \<open>
  C9. On an empty sequence \<open>mix\<close> returns, and the audio it exports is the zero-length
  silence it starts from, of length 0 (\<open>combine_audio\<close> exports the empty audio);
  \<open>process\<close> on a transcription with no segments returns the empty list and logs a
  reduction of 0.
\<close>

theorem empty_input:
  "mix fs [] output_path mt = (output_path, silent 0)
   \<and> len_ms (snd (mix fs [] output_path mt)) = 0
   \<and> len_ms (snd (combine_audio fs dir [] output_name)) = 0
   \<and> process self rd sl \<lparr>segments = Some []\<rparr> = ([], 0)
   \<and> process self rd sl \<lparr>segments = None\<rparr> = ([], 0)"
  by (simp add: mix_def silent_def len_ms_def combine_audio_def process_def word_count_def
      reduction_percent_def Let_def)

section \<open>Properties of the synthesizer\<close>

lemma digits_chars: "set (digits n) \<subseteq> set ''0123456789''"
proof (induction n rule: digits.induct)
  case (1 n)
  show ?case
  proof (cases "n < 10")
    case True
    then have "''0123456789'' ! n \<in> set ''0123456789''"
      by (intro nth_mem) simp
    then show ?thesis using True by (subst digits.simps) simp
  next
    case False
    have "n mod 10 < 10" by simp
    then have "''0123456789'' ! (n mod 10) \<in> set ''0123456789''"
      by (intro nth_mem) simp
    then show ?thesis using False "1.IH" by (subst digits.simps) simp
  qed
qed

lemma segment_name_no_slash: "CHR ''/'' \<notin> set (segment_name i)"
  using digits_chars[of i] by (auto simp: segment_name_def fmt_04d_def)

lemma path_name_join:
  assumes "CHR ''/'' \<notin> set name"
  shows "path_name (dir @ CHR ''/'' # name) = name"
proof -
  have "takeWhile (\<lambda>c. c \<noteq> CHR ''/'') (rev name @ CHR ''/'' # rev dir) = rev name"
    using assms by (auto simp: takeWhile_tail)
  then show ?thesis by (simp add: path_name_def)
qed

lemma synthesize_loop_indices:
  "synthesize_loop run_piper tdir k segs =
     map (\<lambda>i. \<lparr>text = strip (text (segs ! i)), start = start (segs ! i), end = end (segs ! i),
               audio_file = tdir @ ''/'' @ segment_name (k + i)\<rparr>)
       (filter (\<lambda>i. succeeds run_piper tdir (k + i) (segs ! i)) [0..<length segs])"
proof (induction segs arbitrary: k)
  case Nil
  then show ?case by simp
next
  case (Cons seg segs)
  have upt: "[0..<length (seg # segs)] = 0 # map Suc [0..<length segs]"
    by (simp add: upt_conv_Cons map_Suc_upt del: upt_Suc)
  show ?case
    unfolding upt
    by (simp add: Cons.IH[of "Suc k"] succeeds_def Let_def filter_map comp_def
             split: sum.splits)
qed

lemma copy_loop_succeeds:
  assumes "\<forall>s\<in>set segs. copy (audio_file s) (tmp @ ''/'' @ path_name (audio_file s)) = Inr ()"
  shows "copy_loop copy tmp segs
           = Inr (map (\<lambda>s. s\<lparr>audio_file := tmp @ ''/'' @ path_name (audio_file s)\<rparr>) segs)"
  using assms by (induction segs) (simp_all add: Let_def)

lemma copy_loop_raises:
  assumes "copy (audio_file s) (tmp @ ''/'' @ path_name (audio_file s)) = Inl e"
      and "\<forall>r\<in>set before. copy (audio_file r) (tmp @ ''/'' @ path_name (audio_file r)) = Inr ()"
  shows "copy_loop copy tmp (before @ s # after) = Inl e"
  using assms by (induction before) (simp_all add: Let_def)

lemma succeeds_iff:
  "succeeds run_piper tdir i seg
     \<longleftrightarrow> strip (text seg) \<noteq> []
         \<and> (\<exists>err. run_piper (strip (text seg)) (tdir @ ''/'' @ segment_name i) = Inr (0, err))"
  by (auto simp: succeeds_def synthesize_text_def split: sum.splits prod.splits if_splits)

lemma synthesize_indices:
  assumes "\<forall>source_file target_file. copy source_file target_file = Inr ()"
  shows "synthesize run_piper copy tdir tmp segs =
     Inr (map (synthesized_at tmp segs)
            (filter (\<lambda>i. succeeds run_piper tdir i (segs ! i)) [0..<length segs]))"
proof -
  have "copy_loop copy tmp (synthesize_loop run_piper tdir 0 segs)
          = Inr (map (\<lambda>s. s\<lparr>audio_file := tmp @ ''/'' @ path_name (audio_file s)\<rparr>)
                   (synthesize_loop run_piper tdir 0 segs))"
    using assms by (intro copy_loop_succeeds) simp
  then show ?thesis
    by (simp add: synthesize_def synthesize_loop_indices Let_def synthesized_at_def
        path_name_join segment_name_no_slash comp_def)
qed

lemma synthesize_scenario_B:
  "synthesize scenario_B_piper copy_succeeds ''/tmp/work'' ''/tmp'' scenario_B_segments
     = Inr [\<lparr>text = ''one'', start = 0, end = 1, audio_file = ''/tmp/segment_0000.wav''\<rparr>,
            \<lparr>text = ''three'', start = 2, end = 3, audio_file = ''/tmp/segment_0002.wav''\<rparr>]"
proof -
  have idx: "[0..<length scenario_B_segments] = [0, 1, 2]"
    by (simp add: scenario_B_segments_def upt_rec)
  have names: "segment_name 0 = ''segment_0000.wav''" "segment_name 2 = ''segment_0002.wav''"
    by (simp_all add: segment_name_def fmt_04d_def digits.simps numeral_3_eq_3)
  have "\<forall>source_file target_file. copy_succeeds source_file target_file = Inr ()"
    by (simp add: copy_succeeds_def)
  then show ?thesis
    using synthesize_indices [of copy_succeeds scenario_B_piper "''/tmp/work''" "''/tmp''"
        scenario_B_segments]
    unfolding idx
    by (simp add: names succeeds_def synthesize_text_def scenario_B_piper_def
        scenario_B_segments_def synthesized_at_def strip_def isspace_def)
qed

text \<open>
  C3 fails on the code. The first loop of \<open>synthesize\<close> leaves a segment out when its
  synthesis raises and goes on, but the copy of the synthesized files stands outside
  that \<open>try\<close>: when the process ends with return code 0 and has left no file for one
  segment, \<open>shutil.copy2\<close> raises and the whole call raises. Here the first loop has
  kept all three segments, and \<open>synthesize\<close> returns none of them.
\<close>

theorem synthesize_aborts_on_missing_file:
  "synthesize_loop piper_exits_zero ''/tmp/work'' 0 scenario_B_segments
     = [\<lparr>text = ''one'', start = 0, end = 1, audio_file = ''/tmp/work/segment_0000.wav''\<rparr>,
        \<lparr>text = ''bad'', start = 1, end = 2, audio_file = ''/tmp/work/segment_0001.wav''\<rparr>,
        \<lparr>text = ''three'', start = 2, end = 3, audio_file = ''/tmp/work/segment_0002.wav''\<rparr>]
   \<and> synthesize piper_exits_zero second_file_missing ''/tmp/work'' ''/tmp'' scenario_B_segments
     = Inl (Exception ''FileNotFoundError'')"
proof -
  have names: "segment_name 0 = ''segment_0000.wav''" "segment_name (Suc 0) = ''segment_0001.wav''"
      "segment_name (Suc (Suc 0)) = ''segment_0002.wav''"
    by (simp_all add: segment_name_def fmt_04d_def digits.simps numeral_3_eq_3)
  have loop: "synthesize_loop piper_exits_zero ''/tmp/work'' 0 scenario_B_segments
     = [\<lparr>text = ''one'', start = 0, end = 1, audio_file = ''/tmp/work/segment_0000.wav''\<rparr>,
        \<lparr>text = ''bad'', start = 1, end = 2, audio_file = ''/tmp/work/segment_0001.wav''\<rparr>,
        \<lparr>text = ''three'', start = 2, end = 3, audio_file = ''/tmp/work/segment_0002.wav''\<rparr>]"
    by (simp add: scenario_B_segments_def piper_exits_zero_def synthesize_text_def names
        strip_def isspace_def Let_def)
  show ?thesis
    unfolding synthesize_def Let_def loop
    by (simp add: second_file_missing_def Let_def)
qed

section \<open>Properties of the sanitization\<close>

lemma isspace_space: "isspace (CHR '' '')"
  by (simp add: isspace_def)

lemma not_isspace_not_space: "\<not> isspace c \<Longrightarrow> c \<noteq> CHR '' ''"
  using isspace_space by blast

lemma collapse_ws_single_spaced:
  "single_spaced s \<Longrightarrow> collapse_ws False s = replace_char (CHR '' '') (CHR ''_'') s"
proof (induction s rule: single_spaced.induct)
  case 1
  then show ?case by (simp add: replace_char_def)
next
  case (2 c)
  show ?case
  proof (cases "isspace c")
    case True
    with "2.prems" have "c = CHR '' ''" by simp
    then show ?thesis using True by (simp add: replace_char_def)
  next
    case False
    then show ?thesis
      using not_isspace_not_space[OF False] by (simp add: replace_char_def)
  qed
next
  case (3 c d cs)
  have IH: "collapse_ws False (d # cs) = replace_char (CHR '' '') (CHR ''_'') (d # cs)"
    using 3 by simp
  show ?case
  proof (cases "isspace c")
    case True
    with "3.prems" have c: "c = CHR '' ''" and d: "\<not> isspace d" by simp_all
    have "collapse_ws True (d # cs) = collapse_ws False (d # cs)"
      using d by simp
    then show ?thesis
      using True c IH by (simp add: replace_char_def)
  next
    case False
    then show ?thesis
      using not_isspace_not_space[OF False] IH by (simp add: replace_char_def)
  qed
qed

lemma filter_word_alnum:
  assumes "CHR ''_'' \<notin> set title"
  shows "filter (\<lambda>c. isword c \<or> isspace c \<or> c = CHR ''-'') title
           = filter (\<lambda>c. isalnum c \<or> isspace c \<or> c = CHR ''-'') title"
  using assms by (intro filter_cong) (auto simp: isword_def)

text \<open>
  C4, as the code has it. The name keeps the word characters (alphanumeric, and the
  underscore), the whitespace and the hyphens of the title; it is stripped; then each
  space character becomes an underscore, one for one, and other whitespace stays. So
  the name has the length of the stripped text and no space. It is what the
  specification describes when the title has no underscore and the stripped text has
  only single spaces as whitespace.
\<close>

theorem safe_title_by_character:
  "safe_title title
     = map (\<lambda>c. if c = CHR '' '' then CHR ''_'' else c)
         (strip (filter (\<lambda>c. (isalnum c \<or> c = CHR ''_'') \<or> isspace c \<or> c = CHR ''-'') title))
   \<and> length (safe_title title)
       = length (strip (filter (\<lambda>c. isword c \<or> isspace c \<or> c = CHR ''-'') title))
   \<and> CHR '' '' \<notin> set (safe_title title)
   \<and> (CHR ''_'' \<notin> set title
        \<and> single_spaced (strip (filter (\<lambda>c. isword c \<or> isspace c \<or> c = CHR ''-'') title))
       \<longrightarrow> safe_title title = sanitize_spec title)"
proof -
  have a: "safe_title title
     = map (\<lambda>c. if c = CHR '' '' then CHR ''_'' else c)
         (strip (filter (\<lambda>c. (isalnum c \<or> c = CHR ''_'') \<or> isspace c \<or> c = CHR ''-'') title))"
    by (simp add: safe_title_def replace_char_def isword_def)
  have b: "length (safe_title title)
       = length (strip (filter (\<lambda>c. isword c \<or> isspace c \<or> c = CHR ''-'') title))"
    by (simp add: safe_title_def replace_char_def)
  have c: "CHR '' '' \<notin> set (safe_title title)"
    by (auto simp: safe_title_def replace_char_def)
  have d: "safe_title title = sanitize_spec title"
    if "CHR ''_'' \<notin> set title"
      and "single_spaced (strip (filter (\<lambda>c. isword c \<or> isspace c \<or> c = CHR ''-'') title))"
    using that collapse_ws_single_spaced
    by (simp add: safe_title_def sanitize_spec_def filter_word_alnum)
  show ?thesis
    using a b c d by blast
qed




theorem safe_title_example:
  "CHR ''_'' \<notin> set ''My Talk: part-1!''
   \<and> single_spaced
        (strip (filter (\<lambda>c. isword c \<or> isspace c \<or> c = CHR ''-'') ''My Talk: part-1!''))
   \<and> safe_title ''My Talk: part-1!'' = ''My_Talk_part-1''
   \<and> sanitize_spec ''My Talk: part-1!'' = ''My_Talk_part-1''"
proof -
  have u: "CHR ''_'' \<notin> set ''My Talk: part-1!''"
    by simp
  have p: "single_spaced
        (strip (filter (\<lambda>c. isword c \<or> isspace c \<or> c = CHR ''-'') ''My Talk: part-1!''))"
    by code_simp
  have v: "safe_title ''My Talk: part-1!'' = ''My_Talk_part-1''"
    by code_simp
  have "safe_title ''My Talk: part-1!'' = sanitize_spec ''My Talk: part-1!''"
    using safe_title_by_character [of "''My Talk: part-1!''"] u p by blast
  then show ?thesis
    using u p v by simp
qed

text \<open>
  The specification's wording of C4 fails on a title with an underscore and two
  neighbouring spaces: the code keeps the underscore and writes two underscores for
  the two spaces.
\<close>

theorem safe_title_differs_from_spec:
  "safe_title ''a_b  c'' = ''a_b__c'' \<and> sanitize_spec ''a_b  c'' = ''ab_c''"
  by code_simp

section \<open>Properties of the pipeline\<close>





end
